theory Spec2Isabelle
  imports Main "HOL-Library.Word"
begin

unbundle bit_operations_syntax

section \<open>kRad: a Geiger counter as a hardware random number generator\<close>

text \<open>
  The module \<^verbatim>\<open>krad.c\<close> keeps the arrival times of Geiger pulses in a circular buffer
  that fills one page. The interrupt handler \<^verbatim>\<open>geiger_isr\<close> is the only writer of
  \<^verbatim>\<open>buffer_head\<close>; the hwrng callbacks \<^verbatim>\<open>geiger_data_present\<close>,
  \<^verbatim>\<open>geiger_data_read\<close> and \<^verbatim>\<open>geiger_read\<close> are the only writers of
  \<^verbatim>\<open>buffer_tail\<close>. The embedding is sequential: every function runs from its first
  statement to its return on an explicit state, and the two spin locks, which only
  delimit those runs, have no counterpart.
\<close>

subsection \<open>Machine types\<close>

text \<open>
  The C types are those of an LP64 kernel: \<^verbatim>\<open>int\<close> and \<^verbatim>\<open>u32\<close> have 32 bits,
  \<^verbatim>\<open>long\<close> and \<^verbatim>\<open>size_t\<close> have 64. Arithmetic on words wraps around; the order on
  words is the unsigned one, and \<open>sint\<close> reads a word as a signed number.
\<close>

type_synonym int_t = "32 word"
type_synonym u32 = "32 word"
type_synonym long_t = "64 word"
type_synonym size_t = "64 word"

text \<open>
  Modelled from the spec: \<^verbatim>\<open>struct timespec\<close> is declared in \<^verbatim>\<open><linux/time.h>\<close>,
  not in this module. The Sample of the spec is "a point-in-time timestamp with seconds
  and sub-second (nanosecond) resolution, fixed-size"; the module prints the two fields
  \<^verbatim>\<open>tv_sec\<close> and \<^verbatim>\<open>tv_nsec\<close> with \<^verbatim>\<open>%ld\<close>, so they are two \<^verbatim>\<open>long\<close>, 16 bytes.
\<close>

record timespec =
  tv_sec :: long_t
  tv_nsec :: long_t

definition sizeof_timespec :: size_t where
  "sizeof_timespec = 16"

text \<open>
  Modelled from the spec: \<^verbatim>\<open>PAGE_SIZE\<close> comes from the kernel headers, not from this
  module. The spec has the capacity "a power of two (sized to fit one memory page of the
  host)"; the kernel defines the page size as \<^verbatim>\<open>1UL << PAGE_SHIFT\<close>, and the shift of
  the host is a parameter of every definition below.
\<close>

definition PAGE_SIZE :: "nat \<Rightarrow> size_t" where
  "PAGE_SIZE PAGE_SHIFT = push_bit PAGE_SHIFT 1"

text \<open>\<^verbatim>\<open>#define BUFFER_SIZE (PAGE_SIZE / sizeof(struct timespec))\<close>\<close>

definition BUFFER_SIZE :: "nat \<Rightarrow> size_t" where
  "BUFFER_SIZE PAGE_SHIFT = PAGE_SIZE PAGE_SHIFT div sizeof_timespec"

text \<open>
  Modelled from the spec: \<^verbatim>\<open>CIRC_CNT\<close> and \<^verbatim>\<open>CIRC_SPACE\<close> are macros of
  \<^verbatim>\<open><linux/circ_buf.h>\<close>. The spec gives the occupied-slot count as
  \<open>(head - tail) mod CAPACITY\<close> with one slot always kept empty; the macros compute it
  for a power of two as \<^verbatim>\<open>((head) - (tail)) & ((size)-1)\<close>, and the free space as the
  count from \<^verbatim>\<open>head + 1\<close> up to \<^verbatim>\<open>tail\<close>. The subtraction is done in \<^verbatim>\<open>int\<close>, and
  its result is converted (sign-extended) to the type of \<^verbatim>\<open>size\<close> before the mask.
\<close>

definition CIRC_CNT :: "int_t \<Rightarrow> int_t \<Rightarrow> size_t \<Rightarrow> size_t" where
  "CIRC_CNT head tail size' = scast (head - tail) AND (size' - 1)"

definition CIRC_SPACE :: "int_t \<Rightarrow> int_t \<Rightarrow> size_t \<Rightarrow> size_t" where
  "CIRC_SPACE head tail size' = CIRC_CNT tail (head + 1) size'"

text \<open>
  The expression \<^verbatim>\<open>(c + 1) & (BUFFER_SIZE - 1)\<close> that the module stores into a cursor:
  the sum is an \<^verbatim>\<open>int\<close>, the mask is applied in \<^verbatim>\<open>size_t\<close>, the store narrows the
  result to \<^verbatim>\<open>int\<close> again.
\<close>

definition next_index :: "nat \<Rightarrow> int_t \<Rightarrow> int_t" where
  "next_index PAGE_SHIFT c = ucast ((scast (c + 1) :: size_t) AND (BUFFER_SIZE PAGE_SHIFT - 1))"

subsection \<open>State\<close>

text \<open>The lines the module writes to the kernel log, one constructor for each format.\<close>

datatype kmsg =
    Info_data_present int_t
  | Info_data_read_called
  | Info_read_called
  | Info_max_too_small
  | Info_dispensed_pulse long_t long_t
  | Info_acquired_pulse long_t long_t
  | Err_no_memory
  | Err_gpio int_t
  | Err_irq int_t
  | Err_hwrng int_t
  | Info_started size_t

text \<open>
  The globals of the module. \<open>buffer\<close> is the contents of the page, by slot number.
  \<open>klog\<close> is the kernel log as far as this module wrote it.
\<close>

record krad =
  buffer :: "nat \<Rightarrow> timespec"
  buffer_head :: int_t
  buffer_tail :: int_t
  geiger_irq :: int_t
  klog :: "kmsg list"

text \<open>
  \<^verbatim>\<open>buffer[i]\<close> with an \<^verbatim>\<open>int\<close> index lies in the page only for
  \<open>0 \<le> i < BUFFER_SIZE\<close>. An access outside the page is undefined in C; the model
  stops there with a fault.
\<close>

datatype fault = Out_of_page

definition slot :: "nat \<Rightarrow> int_t \<Rightarrow> nat option" where
  "slot PAGE_SHIFT i =
     (if 0 \<le> sint i \<and> sint i < uint (BUFFER_SIZE PAGE_SHIFT) then Some (nat (sint i)) else None)"

definition printk :: "kmsg \<Rightarrow> krad \<Rightarrow> krad" where
  "printk m s = s\<lparr>klog := klog s @ [m]\<rparr>"

subsection \<open>The hwrng callbacks\<close>

text \<open>
  \<^verbatim>\<open>geiger_data_present(rng, wait)\<close>. The product is computed in \<^verbatim>\<open>size_t\<close> and
  narrowed to the \<^verbatim>\<open>int\<close> variable \<^verbatim>\<open>size\<close>. The \<^verbatim>\<open>rng\<close> argument is unused in
  all three callbacks and has no counterpart here.
\<close>

definition geiger_data_present :: "nat \<Rightarrow> int_t \<Rightarrow> krad \<Rightarrow> int_t \<times> krad" where
  "geiger_data_present PAGE_SHIFT wait s =
     (let head = buffer_head s;
          tail = buffer_tail s;
          size' = (ucast (CIRC_CNT head tail (BUFFER_SIZE PAGE_SHIFT) * sizeof_timespec) :: int_t)
      in (size', printk (Info_data_present size') s))"

text \<open>
  \<^verbatim>\<open>geiger_data_read(rng, data)\<close>, the old hwrng API. The second argument is the value
  of \<^verbatim>\<open>*data\<close> before the call, the second component of the result its value after.
\<close>

definition geiger_data_read :: "nat \<Rightarrow> u32 \<Rightarrow> krad \<Rightarrow> fault + (int_t \<times> u32 \<times> krad)" where
  "geiger_data_read PAGE_SHIFT data s =
     (let s1 = printk Info_data_read_called s;
          head = buffer_head s1;
          tail = buffer_tail s1
      in if 1 \<le> CIRC_CNT head tail (BUFFER_SIZE PAGE_SHIFT) then
           (case slot PAGE_SHIFT tail of
              None \<Rightarrow> Inl Out_of_page
            | Some i \<Rightarrow>
                Inr (4, ucast (tv_nsec (buffer s1 i)),
                     s1\<lparr>buffer_tail := next_index PAGE_SHIFT tail\<rparr>))
         else Inr (0, data, s1))"

text \<open>
  The loop of \<^verbatim>\<open>geiger_read\<close>:
  \<^verbatim>\<open>for(p = 0; p < pulses_given; p++) { printk(...); data[p] = buffer[tail];
  smp_store_release(&buffer_tail, (tail + 1) & (BUFFER_SIZE - 1)); }\<close>
  \<open>tail\<close> is the local variable, read once before the loop and not assigned in it.
  The caller's memory \<open>data\<close> is seen as an array of \<^verbatim>\<open>struct timespec\<close>.
\<close>

function read_loop ::
  "nat \<Rightarrow> int_t \<Rightarrow> size_t \<Rightarrow> size_t \<Rightarrow> (nat \<Rightarrow> timespec) \<Rightarrow> krad
     \<Rightarrow> fault + ((nat \<Rightarrow> timespec) \<times> krad)" where
  "read_loop PAGE_SHIFT tail pulses_given p data s =
     (if p < pulses_given then
        (case slot PAGE_SHIFT tail of
           None \<Rightarrow> Inl Out_of_page
         | Some i \<Rightarrow>
             read_loop PAGE_SHIFT tail pulses_given (p + 1)
               (data(unat p := buffer s i))
               ((printk (Info_dispensed_pulse (tv_sec (buffer s i)) (tv_nsec (buffer s i))) s)
                  \<lparr>buffer_tail := next_index PAGE_SHIFT tail\<rparr>))
      else Inr (data, s))"
  by pat_completeness auto
termination
  by (relation "measure (\<lambda>(PAGE_SHIFT, tail, pulses_given, p, data, s). unat pulses_given - unat p)")
    (simp, simp, unat_arith)

text \<open>
  \<^verbatim>\<open>geiger_read(rng, data, max, wait)\<close>, the new hwrng API. The result is the return
  value (the \<^verbatim>\<open>size_t\<close> product narrowed to \<^verbatim>\<open>int\<close>), the caller's memory and the
  state.
\<close>

definition geiger_read ::
  "nat \<Rightarrow> (nat \<Rightarrow> timespec) \<Rightarrow> size_t \<Rightarrow> bool \<Rightarrow> krad
     \<Rightarrow> fault + (int_t \<times> (nat \<Rightarrow> timespec) \<times> krad)" where
  "geiger_read PAGE_SHIFT data max' wait s =
     (let s1 = printk Info_read_called s;
          head = buffer_head s1;
          tail = buffer_tail s1;
          pulses_given = min (max' div sizeof_timespec) (CIRC_CNT head tail (BUFFER_SIZE PAGE_SHIFT));
          s2 = (if pulses_given = 0 then printk Info_max_too_small s1 else s1)
      in case read_loop PAGE_SHIFT tail pulses_given 0 data s2 of
           Inl e \<Rightarrow> Inl e
         | Inr (data', s3) \<Rightarrow> Inr (ucast (pulses_given * sizeof_timespec), data', s3))"

subsection \<open>The interrupt service routine\<close>

text \<open>
  \<^verbatim>\<open>geiger_isr(irq, data)\<close>. \<open>t\<close> is the value of \<^verbatim>\<open>CURRENT_TIME\<close> at the interrupt.
  The routine returns \<^verbatim>\<open>IRQ_HANDLED\<close> on every path; the result here is the state.
\<close>

definition geiger_isr :: "nat \<Rightarrow> int_t \<Rightarrow> timespec \<Rightarrow> krad \<Rightarrow> fault + krad" where
  "geiger_isr PAGE_SHIFT irq t s =
     (if irq = geiger_irq s then
        (let s1 = printk (Info_acquired_pulse (tv_sec t) (tv_nsec t)) s;
             head = buffer_head s1;
             tail = buffer_tail s1
         in if 1 \<le> CIRC_SPACE head tail (BUFFER_SIZE PAGE_SHIFT) then
              (case slot PAGE_SHIFT head of
                 None \<Rightarrow> Inl Out_of_page
               | Some i \<Rightarrow>
                   Inr (s1\<lparr>buffer := (buffer s1)(i := t),
                           buffer_head := next_index PAGE_SHIFT head\<rparr>))
            else Inr s1)
      else Inr s)"

subsection \<open>Start-up\<close>

text \<open>
  What the kernel answers to the calls \<^verbatim>\<open>krad_init\<close> makes, in the order of the
  calls: the address from \<^verbatim>\<open>__get_free_page\<close> (0 when there is no memory) and the
  return values of \<^verbatim>\<open>gpio_request_one\<close>, \<^verbatim>\<open>gpio_to_irq\<close>, \<^verbatim>\<open>request_irq\<close>
  and \<^verbatim>\<open>hwrng_register\<close>.
\<close>

record kernel =
  get_free_page :: "64 word"
  gpio_request_one :: int_t
  gpio_to_irq :: int_t
  request_irq :: int_t
  hwrng_register :: int_t

text \<open>What the module holds: the page, the GPIO line, the interrupt line, the hwrng device.\<close>

datatype resource = Page | Gpio | Irq | Hwrng

definition ENOMEM :: int_t where
  "ENOMEM = 12"

text \<open>
  The labels at the end of \<^verbatim>\<open>krad_init\<close>; each falls through to the next.
  \<^verbatim>\<open>fail3: free_irq(geiger_irq, NULL); fail2: gpio_free(geiger_pulse_pin);
  fail1: return ret;\<close>
\<close>

definition fail1 :: "int_t \<Rightarrow> krad \<Rightarrow> resource set \<Rightarrow> int_t \<times> krad \<times> resource set" where
  "fail1 ret s held = (ret, s, held)"

definition fail2 :: "int_t \<Rightarrow> krad \<Rightarrow> resource set \<Rightarrow> int_t \<times> krad \<times> resource set" where
  "fail2 ret s held = fail1 ret s (held - {Gpio})"

definition fail3 :: "int_t \<Rightarrow> krad \<Rightarrow> resource set \<Rightarrow> int_t \<times> krad \<times> resource set" where
  "fail3 ret s held = fail2 ret s (held - {Irq})"

text \<open>
  \<^verbatim>\<open>krad_init()\<close>: the return value, the globals and the resources the module holds
  when the function returns.
\<close>

definition krad_init :: "nat \<Rightarrow> kernel \<Rightarrow> krad \<Rightarrow> int_t \<times> krad \<times> resource set" where
  "krad_init PAGE_SHIFT k s =
     (if get_free_page k = 0 then (ENOMEM, printk Err_no_memory s, {})
      else
        let held = {Page};
            ret = gpio_request_one k
        in if ret \<noteq> 0 then fail1 ret (printk (Err_gpio ret) s) held
           else
             let held = insert Gpio held;
                 ret = gpio_to_irq k
             in if sint ret < 0 then fail2 ret (printk (Err_irq ret) s) held
                else
                  let s = s\<lparr>geiger_irq := ret\<rparr>;
                      ret = request_irq k
                  in if ret \<noteq> 0 then fail2 ret (printk (Err_irq ret) s) held
                     else
                       let held = insert Irq held;
                           ret = hwrng_register k
                       in if ret \<noteq> 0 then fail3 ret (printk (Err_hwrng ret) s) held
                          else (0, printk (Info_started (BUFFER_SIZE PAGE_SHIFT)) s,
                                insert Hwrng held))"

subsection \<open>Runs of the module\<close>

text \<open>
  One entry into the module: an interrupt with its number and the time read at it, or one
  of the three hwrng callbacks with its arguments.
\<close>

datatype entry =
    Isr int_t timespec
  | Data_present int_t
  | Data_read u32
  | Read "nat \<Rightarrow> timespec" size_t bool

fun step :: "nat \<Rightarrow> entry \<Rightarrow> krad \<Rightarrow> fault + krad" where
  "step PAGE_SHIFT (Isr irq t) s = geiger_isr PAGE_SHIFT irq t s"
| "step PAGE_SHIFT (Data_present wait) s = Inr (snd (geiger_data_present PAGE_SHIFT wait s))"
| "step PAGE_SHIFT (Data_read data) s =
     (case geiger_data_read PAGE_SHIFT data s of
        Inl e \<Rightarrow> Inl e
      | Inr (ret, data', s') \<Rightarrow> Inr s')"
| "step PAGE_SHIFT (Read data max' wait) s =
     (case geiger_read PAGE_SHIFT data max' wait s of
        Inl e \<Rightarrow> Inl e
      | Inr (ret, data', s') \<Rightarrow> Inr s')"

fun run :: "nat \<Rightarrow> entry list \<Rightarrow> krad \<Rightarrow> fault + krad" where
  "run PAGE_SHIFT [] s = Inr s"
| "run PAGE_SHIFT (e # es) s =
     (case step PAGE_SHIFT e s of
        Inl f \<Rightarrow> Inl f
      | Inr s' \<Rightarrow> run PAGE_SHIFT es s')"

text \<open>The interrupts of the Geiger line alone, one for each time of the list.\<close>

fun pulses :: "nat \<Rightarrow> timespec list \<Rightarrow> krad \<Rightarrow> fault + krad" where
  "pulses PAGE_SHIFT [] s = Inr s"
| "pulses PAGE_SHIFT (t # ts) s =
     (case geiger_isr PAGE_SHIFT (geiger_irq s) t s of
        Inl f \<Rightarrow> Inl f
      | Inr s' \<Rightarrow> pulses PAGE_SHIFT ts s')"

subsection \<open>The vocabulary of the specification\<close>

text \<open>
  The page sizes covered: at least one slot fits the page, and every byte count of the
  page fits an \<^verbatim>\<open>int\<close>.
\<close>

definition page_ok :: "nat \<Rightarrow> bool" where
  "page_ok PAGE_SHIFT \<longleftrightarrow> 4 \<le> PAGE_SHIFT \<and> PAGE_SHIFT \<le> 31"

text \<open>The number of slots, and the usable capacity: one slot is always kept empty.\<close>

definition CAPACITY :: "nat \<Rightarrow> int" where
  "CAPACITY PAGE_SHIFT = uint (BUFFER_SIZE PAGE_SHIFT)"

definition capacity :: "nat \<Rightarrow> int" where
  "capacity PAGE_SHIFT = CAPACITY PAGE_SHIFT - 1"

text \<open>Both cursors are slot numbers: \<open>0 \<le> head < CAPACITY\<close> and \<open>0 \<le> tail < CAPACITY\<close>.\<close>

definition cursors_ok :: "nat \<Rightarrow> krad \<Rightarrow> bool" where
  "cursors_ok PAGE_SHIFT s \<longleftrightarrow>
     0 \<le> sint (buffer_head s) \<and> sint (buffer_head s) < CAPACITY PAGE_SHIFT \<and>
     0 \<le> sint (buffer_tail s) \<and> sint (buffer_tail s) < CAPACITY PAGE_SHIFT"

text \<open>The occupied-slot count of the specification: \<open>(head - tail) mod CAPACITY\<close>.\<close>

definition occupancy :: "nat \<Rightarrow> krad \<Rightarrow> int" where
  "occupancy PAGE_SHIFT s =
     (sint (buffer_head s) - sint (buffer_tail s)) mod CAPACITY PAGE_SHIFT"

text \<open>
  The live samples, oldest first: the slots of the cyclic range from \<open>tail\<close> up to,
  not including, \<open>head\<close>.
\<close>

definition live :: "nat \<Rightarrow> krad \<Rightarrow> timespec list" where
  "live PAGE_SHIFT s =
     map (\<lambda>j. buffer s (nat ((sint (buffer_tail s) + int j) mod CAPACITY PAGE_SHIFT)))
       [0 ..< nat (occupancy PAGE_SHIFT s)]"

subsection \<open>A started module and two pulses\<close>

text \<open>
  The globals after a start-up that got the interrupt line \<open>irq\<close>: both cursors are 0,
  as their initialisers say, and the page is filled with zeros. Two times of arrival, and
  a caller's memory filled with zeros.
\<close>

definition started :: "int_t \<Rightarrow> krad" where
  "started irq =
     \<lparr>buffer = (\<lambda>_. \<lparr>tv_sec = 0, tv_nsec = 0\<rparr>), buffer_head = 0, buffer_tail = 0,
      geiger_irq = irq, klog = []\<rparr>"

definition pulse_a :: timespec where
  "pulse_a = \<lparr>tv_sec = 1478100000, tv_nsec = 100\<rparr>"

definition pulse_b :: timespec where
  "pulse_b = \<lparr>tv_sec = 1478100002, tv_nsec = 200\<rparr>"

text \<open>The globals after the two pulses arrived at a started module with interrupt line 7.\<close>

definition two_pulses :: krad where
  "two_pulses =
     \<lparr>buffer = (\<lambda>_. \<lparr>tv_sec = 0, tv_nsec = 0\<rparr>)(0 := pulse_a, 1 := pulse_b),
      buffer_head = 2, buffer_tail = 0, geiger_irq = 7,
      klog = [Info_acquired_pulse 1478100000 100, Info_acquired_pulse 1478100002 200]\<rparr>"

definition no_data :: "nat \<Rightarrow> timespec" where
  "no_data = (\<lambda>_. \<lparr>tv_sec = 0, tv_nsec = 0\<rparr>)"

text \<open>
  The globals when the module is loaded, \<^verbatim>\<open>geiger_irq\<close> being initialised to \<open>-1\<close>,
  and a kernel that hands out a page and then refuses the GPIO line with \<^verbatim>\<open>-EBUSY\<close>
  (\<open>-16\<close>); the later calls are not reached.
\<close>

definition loaded :: krad where
  "loaded = started (- 1)"

definition gpio_busy :: kernel where
  "gpio_busy =
     \<lparr>get_free_page = 0xFFFF880012345000, gpio_request_one = - 16, gpio_to_irq = 0,
      request_irq = 0, hwrng_register = 0\<rparr>"

section \<open>Arithmetic of the cursors\<close>

text \<open>
  For the page sizes covered the number of slots is a power of two, the mask is a
  remainder, and the conversions between \<^verbatim>\<open>int\<close> and \<^verbatim>\<open>size_t\<close> do not change
  the remainder.
\<close>

lemma BUFFER_SIZE_eq: "page_ok PAGE_SHIFT \<Longrightarrow> BUFFER_SIZE PAGE_SHIFT = 2 ^ (PAGE_SHIFT - 4)"
proof -
  assume ok: "page_ok PAGE_SHIFT"
  have "(push_bit PAGE_SHIFT 1 :: size_t) div 16 = drop_bit 4 (push_bit PAGE_SHIFT 1)"
    by (simp add: drop_bit_eq_div)
  also have "\<dots> = push_bit (PAGE_SHIFT - 4) 1"
    using ok by (intro bit_eqI) (auto simp add: bit_simps page_ok_def)
  finally show ?thesis
    by (simp add: BUFFER_SIZE_def PAGE_SIZE_def sizeof_timespec_def)
qed

lemma page_ok_shift: "page_ok PAGE_SHIFT \<Longrightarrow> PAGE_SHIFT - 4 \<le> 27"
  unfolding page_ok_def by arith

lemma CAPACITY_eq: "page_ok PAGE_SHIFT \<Longrightarrow> CAPACITY PAGE_SHIFT = 2 ^ (PAGE_SHIFT - 4)"
proof -
  assume ok: "page_ok PAGE_SHIFT"
  have "(2 ^ (PAGE_SHIFT - 4) :: size_t) \<noteq> 0"
    using page_ok_shift [OF ok] by simp
  then have "uint (2 ^ (PAGE_SHIFT - 4) :: size_t) = 2 ^ (PAGE_SHIFT - 4)"
    by (intro uint_2p) (simp add: word_greater_zero_iff)
  with ok show ?thesis
    by (simp add: CAPACITY_def BUFFER_SIZE_eq)
qed

lemma CAPACITY_pos: "page_ok PAGE_SHIFT \<Longrightarrow> 0 < CAPACITY PAGE_SHIFT"
  by (simp add: CAPACITY_eq)

lemma CAPACITY_le: "page_ok PAGE_SHIFT \<Longrightarrow> CAPACITY PAGE_SHIFT \<le> 2 ^ 27"
proof -
  assume ok: "page_ok PAGE_SHIFT"
  then have "(2::int) ^ (PAGE_SHIFT - 4) \<le> 2 ^ 27"
    by (intro power_increasing page_ok_shift) simp_all
  with ok show ?thesis by (simp add: CAPACITY_eq)
qed

lemma masked_scast:
  fixes w :: int_t
  assumes "k \<le> 32"
  shows "uint ((scast w :: size_t) AND (2 ^ k - 1)) = sint w mod 2 ^ k"
proof -
  have "(scast w :: size_t) AND (2 ^ k - 1) = take_bit k (scast w)"
    by (simp flip: mask_eq_exp_minus_1 take_bit_eq_mask)
  moreover have "uint (take_bit k (scast w :: size_t)) = take_bit k (sint w)"
    using assms by (intro bit_eqI) (auto simp add: bit_simps)
  ultimately show ?thesis
    by (simp add: take_bit_eq_mod)
qed

lemma sint_diff_mod:
  fixes a b :: int_t
  assumes "k \<le> 32"
  shows "sint (a - b) mod 2 ^ k = (sint a - sint b) mod 2 ^ k"
  using assms by (simp add: sint_word_ariths take_bit_signed_take_bit flip: take_bit_eq_mod)

lemma sint_add_mod:
  fixes a b :: int_t
  assumes "k \<le> 32"
  shows "sint (a + b) mod 2 ^ k = (sint a + sint b) mod 2 ^ k"
  using assms by (simp add: sint_word_ariths take_bit_signed_take_bit flip: take_bit_eq_mod)

lemma CIRC_CNT_eq:
  assumes "page_ok PAGE_SHIFT"
  shows "uint (CIRC_CNT h t (BUFFER_SIZE PAGE_SHIFT)) = (sint h - sint t) mod CAPACITY PAGE_SHIFT"
proof -
  have k: "PAGE_SHIFT - 4 \<le> 32"
    using page_ok_shift [OF assms] by simp
  show ?thesis
    using assms by (simp add: CIRC_CNT_def BUFFER_SIZE_eq CAPACITY_eq masked_scast [OF k] sint_diff_mod [OF k])
qed

lemma CIRC_SPACE_eq:
  assumes "page_ok PAGE_SHIFT"
  shows "uint (CIRC_SPACE h t (BUFFER_SIZE PAGE_SHIFT)) = (sint t - (sint h + 1)) mod CAPACITY PAGE_SHIFT"
proof -
  have k: "PAGE_SHIFT - 4 \<le> 32"
    using page_ok_shift [OF assms] by simp
  have "(sint t - sint (h + 1)) mod 2 ^ (PAGE_SHIFT - 4) = (sint t - (sint h + 1)) mod 2 ^ (PAGE_SHIFT - 4)"
    using sint_add_mod [OF k, of h 1] by (intro mod_diff_cong) simp_all
  then show ?thesis
    using assms by (simp add: CIRC_SPACE_def CIRC_CNT_eq CAPACITY_eq)
qed

lemma sint_narrow_masked:
  fixes x :: size_t
  assumes "k \<le> 31"
  shows "sint (ucast (x AND (2 ^ k - 1)) :: int_t) = uint (x AND (2 ^ k - 1))"
proof -
  have "x AND (2 ^ k - 1) = take_bit k x"
    by (simp flip: mask_eq_exp_minus_1 take_bit_eq_mask)
  moreover have "sint (ucast (take_bit k x) :: int_t) = uint (take_bit k x)"
    using assms by (intro bit_eqI) (auto simp add: bit_simps)
  ultimately show ?thesis by simp
qed

lemma sint_next_index:
  assumes "page_ok PAGE_SHIFT"
  shows "sint (next_index PAGE_SHIFT c) = (sint c + 1) mod CAPACITY PAGE_SHIFT"
proof -
  have k: "PAGE_SHIFT - 4 \<le> 32" and k': "PAGE_SHIFT - 4 \<le> 31"
    using page_ok_shift [OF assms] by simp_all
  show ?thesis
    using assms sint_add_mod [OF k, of c 1]
    by (simp add: next_index_def BUFFER_SIZE_eq CAPACITY_eq sint_narrow_masked [OF k'] masked_scast [OF k])
qed

section \<open>The entries on the cursors\<close>

text \<open>
  What each entry computes, in terms of the occupancy: the two branches of the interrupt
  routine and of the old read, and the loop of the new read.
\<close>

lemma space_int:
  fixes h t N :: int
  assumes "0 < N"
  shows "(t - (h + 1)) mod N = N - 1 - (h - t) mod N"
proof -
  have "(N - 1 - (h - t) mod N) mod N = (N - 1 - (h - t)) mod N"
    by (simp add: mod_diff_right_eq)
  also have "N - 1 - (h - t) = (t - (h + 1)) + N"
    by simp
  also have "\<dots> mod N = (t - (h + 1)) mod N"
    by simp
  finally have "(t - (h + 1)) mod N = (N - 1 - (h - t) mod N) mod N"
    by simp
  moreover have "0 \<le> N - 1 - (h - t) mod N"
    using assms pos_mod_bound [of N "h - t"] by linarith
  moreover have "N - 1 - (h - t) mod N < N"
    using assms pos_mod_sign [of N "h - t"] by linarith
  ultimately show ?thesis
    by simp
qed

lemma CIRC_CNT_occupancy:
  "page_ok PAGE_SHIFT \<Longrightarrow>
     uint (CIRC_CNT (buffer_head s) (buffer_tail s) (BUFFER_SIZE PAGE_SHIFT)) = occupancy PAGE_SHIFT s"
  by (simp add: CIRC_CNT_eq occupancy_def)

lemma CIRC_SPACE_occupancy:
  "page_ok PAGE_SHIFT \<Longrightarrow>
     uint (CIRC_SPACE (buffer_head s) (buffer_tail s) (BUFFER_SIZE PAGE_SHIFT))
       = capacity PAGE_SHIFT - occupancy PAGE_SHIFT s"
  by (simp add: CIRC_SPACE_eq occupancy_def capacity_def space_int CAPACITY_pos)

lemma occupancy_bounds:
  "page_ok PAGE_SHIFT \<Longrightarrow> 0 \<le> occupancy PAGE_SHIFT s \<and> occupancy PAGE_SHIFT s \<le> capacity PAGE_SHIFT"
  using pos_mod_bound [of "CAPACITY PAGE_SHIFT" "sint (buffer_head s) - sint (buffer_tail s)"]
    pos_mod_sign [of "CAPACITY PAGE_SHIFT" "sint (buffer_head s) - sint (buffer_tail s)"]
    CAPACITY_pos [of PAGE_SHIFT]
  unfolding occupancy_def capacity_def by linarith

lemma word_ge_1: "1 \<le> w \<longleftrightarrow> 1 \<le> uint w" for w :: size_t
  by (simp add: word_le_def)

lemma slot_Some:
  "0 \<le> sint c \<Longrightarrow> sint c < CAPACITY PAGE_SHIFT \<Longrightarrow> slot PAGE_SHIFT c = Some (nat (sint c))"
  by (simp add: slot_def CAPACITY_def)

lemma geiger_isr_full:
  assumes "page_ok PAGE_SHIFT" and "occupancy PAGE_SHIFT s = capacity PAGE_SHIFT"
  shows "geiger_isr PAGE_SHIFT (geiger_irq s) t s
           = Inr (printk (Info_acquired_pulse (tv_sec t) (tv_nsec t)) s)"
  using assms CIRC_SPACE_occupancy [of PAGE_SHIFT s]
  by (simp add: geiger_isr_def Let_def printk_def word_ge_1)

lemma geiger_isr_space:
  assumes "page_ok PAGE_SHIFT" and "cursors_ok PAGE_SHIFT s"
    and "occupancy PAGE_SHIFT s < capacity PAGE_SHIFT"
  shows "geiger_isr PAGE_SHIFT (geiger_irq s) t s
           = Inr ((printk (Info_acquired_pulse (tv_sec t) (tv_nsec t)) s)
                    \<lparr>buffer := (buffer s)(nat (sint (buffer_head s)) := t),
                     buffer_head := next_index PAGE_SHIFT (buffer_head s)\<rparr>)"
  using assms CIRC_SPACE_occupancy [of PAGE_SHIFT s]
  by (simp add: geiger_isr_def Let_def printk_def word_ge_1 slot_Some cursors_ok_def)

lemma geiger_isr_other:
  "irq \<noteq> geiger_irq s \<Longrightarrow> geiger_isr PAGE_SHIFT irq t s = Inr s"
  by (simp add: geiger_isr_def)

lemma geiger_data_read_empty:
  assumes "page_ok PAGE_SHIFT" and "occupancy PAGE_SHIFT s = 0"
  shows "geiger_data_read PAGE_SHIFT data s = Inr (0, data, printk Info_data_read_called s)"
  using assms CIRC_CNT_occupancy [of PAGE_SHIFT s]
  by (simp add: geiger_data_read_def Let_def printk_def word_ge_1)

lemma geiger_data_read_pop:
  assumes "page_ok PAGE_SHIFT" and "cursors_ok PAGE_SHIFT s" and "1 \<le> occupancy PAGE_SHIFT s"
  shows "geiger_data_read PAGE_SHIFT data s
           = Inr (4, ucast (tv_nsec (buffer s (nat (sint (buffer_tail s))))),
                  (printk Info_data_read_called s)
                    \<lparr>buffer_tail := next_index PAGE_SHIFT (buffer_tail s)\<rparr>)"
  using assms CIRC_CNT_occupancy [of PAGE_SHIFT s]
  by (simp add: geiger_data_read_def Let_def printk_def word_ge_1 slot_Some cursors_ok_def)

lemma read_loop_done:
  "\<not> p < pulses_given \<Longrightarrow> read_loop PAGE_SHIFT tail pulses_given p data s = Inr (data, s)"
  by (subst read_loop.simps) simp

lemma read_loop_result:
  assumes "slot PAGE_SHIFT tail = Some i"
  shows "\<exists>data' s'. read_loop PAGE_SHIFT tail pulses_given p data s = Inr (data', s')
           \<and> (\<forall>q. data' q = (if unat p \<le> q \<and> q < unat pulses_given then buffer s i else data q))
           \<and> buffer s' = buffer s \<and> buffer_head s' = buffer_head s \<and> geiger_irq s' = geiger_irq s
           \<and> buffer_tail s' = (if p < pulses_given then next_index PAGE_SHIFT tail else buffer_tail s)"
  using assms
proof (induction PAGE_SHIFT tail pulses_given p data s rule: read_loop.induct)
  case (1 PAGE_SHIFT tail pulses_given p data s)
  show ?case
  proof (cases "p < pulses_given")
    case False
    then have "\<not> unat p < unat pulses_given"
      by (simp add: word_less_nat_alt)
    with False show ?thesis
      by (auto simp add: read_loop_done)
  next
    case True
    let ?s = "(printk (Info_dispensed_pulse (tv_sec (buffer s i)) (tv_nsec (buffer s i))) s)
                 \<lparr>buffer_tail := next_index PAGE_SHIFT tail\<rparr>"
    have suc: "unat (p + 1) = Suc (unat p)" and lt: "unat p < unat pulses_given"
      using True by unat_arith+
    obtain data' s' where
      run: "read_loop PAGE_SHIFT tail pulses_given (p + 1) (data(unat p := buffer s i)) ?s = Inr (data', s')"
      and data': "\<forall>q. data' q = (if unat (p + 1) \<le> q \<and> q < unat pulses_given then buffer ?s i
                                     else (data(unat p := buffer s i)) q)"
      and rest: "buffer s' = buffer ?s" "buffer_head s' = buffer_head ?s" "geiger_irq s' = geiger_irq ?s"
         "buffer_tail s' = (if p + 1 < pulses_given then next_index PAGE_SHIFT tail else buffer_tail ?s)"
      using "1.IH" [OF True "1.prems" "1.prems"] by blast
    have "read_loop PAGE_SHIFT tail pulses_given p data s = Inr (data', s')"
      using True "1.prems" run by (subst read_loop.simps) simp
    moreover have "\<forall>q. data' q = (if unat p \<le> q \<and> q < unat pulses_given then buffer s i else data q)"
      using data' suc lt by (auto simp add: printk_def)
    ultimately show ?thesis
      using rest True by (simp add: printk_def)
  qed
qed

lemma read_loop_fault:
  "slot PAGE_SHIFT tail = None \<Longrightarrow> p < pulses_given \<Longrightarrow>
     read_loop PAGE_SHIFT tail pulses_given p data s = Inl Out_of_page"
  by (subst read_loop.simps) simp

lemma div_sizeof_small: "max' < sizeof_timespec \<Longrightarrow> max' div sizeof_timespec = 0"
  by (simp add: word_less_nat_alt word_unat_eq_iff unat_div sizeof_timespec_def)

lemma sint_narrow_small:
  fixes x :: size_t
  assumes "uint x < 2 ^ 31"
  shows "sint (ucast x :: int_t) = uint x"
proof -
  have "sint (ucast x :: int_t) = signed_take_bit 31 (uint x)"
    by (simp add: signed_ucast_eq)
  also have "\<dots> = uint x"
  proof (rule signed_take_bit_int_eq_self)
    show "- (2 ^ 31) \<le> uint x"
      by (rule order_trans [OF _ uint_nonnegative]) simp
    show "uint x < 2 ^ 31"
      by (rule assms)
  qed
  finally show ?thesis .
qed

lemma uint_times_sizeof:
  fixes x :: size_t
  assumes "uint x \<le> 2 ^ 27"
  shows "uint (x * sizeof_timespec) = uint x * 16"
proof -
  have "uint (x * 16) = uint x * 16 mod 2 ^ 64"
    by (simp add: uint_word_ariths)
  also have "\<dots> = uint x * 16"
    using assms by (intro mod_pos_pos_trivial) simp_all
  finally show ?thesis by (simp add: sizeof_timespec_def)
qed

lemma geiger_read_result:
  fixes max' :: size_t and s :: krad and PAGE_SHIFT :: nat
  assumes "page_ok PAGE_SHIFT" and "cursors_ok PAGE_SHIFT s"
    and pg: "pg = min (max' div sizeof_timespec)
                    (CIRC_CNT (buffer_head s) (buffer_tail s) (BUFFER_SIZE PAGE_SHIFT))"
  shows "\<exists>data' s'.
      geiger_read PAGE_SHIFT data max' wait s = Inr (ucast (pg * sizeof_timespec), data', s')
      \<and> (\<forall>q. data' q = (if q < unat pg then buffer s (nat (sint (buffer_tail s))) else data q))
      \<and> buffer s' = buffer s \<and> buffer_head s' = buffer_head s \<and> geiger_irq s' = geiger_irq s
      \<and> buffer_tail s' = (if 0 < pg then next_index PAGE_SHIFT (buffer_tail s) else buffer_tail s)"
proof -
  define s2 where "s2 = (if pg = 0 then printk Info_max_too_small (printk Info_read_called s)
                         else printk Info_read_called s)"
  have s2: "buffer s2 = buffer s" "buffer_head s2 = buffer_head s" "buffer_tail s2 = buffer_tail s"
    "geiger_irq s2 = geiger_irq s"
    by (simp_all add: s2_def printk_def)
  have "slot PAGE_SHIFT (buffer_tail s) = Some (nat (sint (buffer_tail s)))"
    using assms(2) by (simp add: slot_Some cursors_ok_def)
  from read_loop_result [OF this, of pg 0 data s2]
  obtain data' s' where loop:
    "read_loop PAGE_SHIFT (buffer_tail s) pg 0 data s2 = Inr (data', s')"
    and data': "\<forall>q. data' q = (if unat (0 :: size_t) \<le> q \<and> q < unat pg
                                   then buffer s2 (nat (sint (buffer_tail s))) else data q)"
    and rest: "buffer s' = buffer s2" "buffer_head s' = buffer_head s2" "geiger_irq s' = geiger_irq s2"
    "buffer_tail s' = (if 0 < pg then next_index PAGE_SHIFT (buffer_tail s) else buffer_tail s2)"
    by blast
  have "geiger_read PAGE_SHIFT data max' wait s = Inr (ucast (pg * sizeof_timespec), data', s')"
    unfolding geiger_read_def Let_def
    using loop by (simp add: pg s2_def printk_def)
  moreover have "\<forall>q. data' q = (if q < unat pg then buffer s (nat (sint (buffer_tail s))) else data q)"
    using data' by (simp add: s2)
  ultimately show ?thesis
    using rest by (simp add: s2)
qed

section \<open>The live samples\<close>

lemma wrap_head:
  fixes h t N :: int
  assumes "0 \<le> h" and "h < N"
  shows "(t + (h - t) mod N) mod N = h"
proof -
  have "(t + (h - t) mod N) mod N = (t + (h - t)) mod N"
    by (simp add: mod_add_right_eq)
  with assms show ?thesis by simp
qed

lemma wrap_before_head:
  fixes h t j N :: int
  assumes "0 \<le> j" and "j < (h - t) mod N" and "0 < N"
  shows "(t + j) mod N \<noteq> h"
proof
  assume eq: "(t + j) mod N = h"
  have "(h - t) mod N < N"
    using assms(3) by simp
  with assms have j: "j mod N = j"
    by simp
  have "(h - t) mod N = ((t + j) mod N - t) mod N"
    by (simp add: eq)
  also have "\<dots> = (t + j - t) mod N"
    by (simp add: mod_diff_left_eq)
  also have "\<dots> = j"
    using j by simp
  finally show False
    using assms(2) by simp
qed

lemma cursor_next:
  assumes "page_ok PAGE_SHIFT"
  shows "0 \<le> sint (next_index PAGE_SHIFT c) \<and> sint (next_index PAGE_SHIFT c) < CAPACITY PAGE_SHIFT"
  using CAPACITY_pos [OF assms] by (simp add: sint_next_index [OF assms])

lemma occupancy_push:
  assumes "page_ok PAGE_SHIFT" and "occupancy PAGE_SHIFT s < capacity PAGE_SHIFT"
    and "buffer_head s' = next_index PAGE_SHIFT (buffer_head s)" and "buffer_tail s' = buffer_tail s"
  shows "occupancy PAGE_SHIFT s' = occupancy PAGE_SHIFT s + 1"
proof -
  let ?N = "CAPACITY PAGE_SHIFT" and ?h = "sint (buffer_head s)" and ?t = "sint (buffer_tail s)"
  have "occupancy PAGE_SHIFT s' = ((?h + 1) mod ?N - ?t) mod ?N"
    using assms by (simp add: occupancy_def sint_next_index)
  also have "\<dots> = (?h + 1 - ?t) mod ?N"
    by (simp add: mod_diff_left_eq)
  also have "?h + 1 - ?t = (?h - ?t) + 1"
    by simp
  also have "\<dots> mod ?N = ((?h - ?t) mod ?N + 1) mod ?N"
    by (simp add: mod_add_left_eq)
  also have "\<dots> = (?h - ?t) mod ?N + 1"
    using assms(2) occupancy_bounds [OF assms(1), of s]
    by (intro mod_pos_pos_trivial) (simp_all add: occupancy_def capacity_def)
  finally show ?thesis
    by (simp add: occupancy_def)
qed

lemma occupancy_pop:
  assumes "page_ok PAGE_SHIFT" and "1 \<le> occupancy PAGE_SHIFT s"
    and "buffer_tail s' = next_index PAGE_SHIFT (buffer_tail s)" and "buffer_head s' = buffer_head s"
  shows "occupancy PAGE_SHIFT s' = occupancy PAGE_SHIFT s - 1"
proof -
  let ?N = "CAPACITY PAGE_SHIFT" and ?h = "sint (buffer_head s)" and ?t = "sint (buffer_tail s)"
  have "occupancy PAGE_SHIFT s' = (?h - (?t + 1) mod ?N) mod ?N"
    using assms by (simp add: occupancy_def sint_next_index)
  also have "\<dots> = (?h - (?t + 1)) mod ?N"
    by (simp add: mod_diff_right_eq)
  also have "?h - (?t + 1) = (?h - ?t) - 1"
    by simp
  also have "\<dots> mod ?N = ((?h - ?t) mod ?N - 1) mod ?N"
    by (simp add: mod_diff_left_eq)
  also have "\<dots> = (?h - ?t) mod ?N - 1"
    using assms(2) occupancy_bounds [OF assms(1), of s]
    by (intro mod_pos_pos_trivial) (simp_all add: occupancy_def capacity_def)
  finally show ?thesis
    by (simp add: occupancy_def)
qed

lemma live_push:
  assumes ok: "page_ok PAGE_SHIFT" and cur: "cursors_ok PAGE_SHIFT s"
    and space: "occupancy PAGE_SHIFT s < capacity PAGE_SHIFT"
    and head': "buffer_head s' = next_index PAGE_SHIFT (buffer_head s)"
    and tail': "buffer_tail s' = buffer_tail s"
    and buffer': "buffer s' = (buffer s)(nat (sint (buffer_head s)) := x)"
  shows "live PAGE_SHIFT s' = live PAGE_SHIFT s @ [x]"
proof -
  let ?N = "CAPACITY PAGE_SHIFT" and ?h = "sint (buffer_head s)" and ?t = "sint (buffer_tail s)"
  let ?n = "nat (occupancy PAGE_SHIFT s)"
  have N: "0 < ?N"
    by (rule CAPACITY_pos [OF ok])
  have h: "0 \<le> ?h" "?h < ?N"
    using cur by (simp_all add: cursors_ok_def)
  have occ: "0 \<le> occupancy PAGE_SHIFT s"
    using occupancy_bounds [OF ok, of s] by simp
  have "nat (occupancy PAGE_SHIFT s') = Suc ?n"
    using occupancy_push [OF ok space head' tail'] occ by simp
  then have "live PAGE_SHIFT s'
      = map (\<lambda>j. buffer s' (nat ((?t + int j) mod ?N))) [0 ..< ?n]
        @ [buffer s' (nat ((?t + int ?n) mod ?N))]"
    by (simp add: live_def tail')
  moreover have "buffer s' (nat ((?t + int ?n) mod ?N)) = x"
    using wrap_head [OF h, of ?t] occ by (simp add: buffer' occupancy_def)
  moreover have "map (\<lambda>j. buffer s' (nat ((?t + int j) mod ?N))) [0 ..< ?n]
      = map (\<lambda>j. buffer s (nat ((?t + int j) mod ?N))) [0 ..< ?n]"
  proof (rule map_cong [OF refl])
    fix j assume "j \<in> set [0 ..< ?n]"
    then have "int j < (?h - ?t) mod ?N"
      by (simp add: occupancy_def)
    then have "(?t + int j) mod ?N \<noteq> ?h"
      using N by (intro wrap_before_head) simp_all
    moreover have "0 \<le> (?t + int j) mod ?N"
      using N by simp
    ultimately have "nat ((?t + int j) mod ?N) \<noteq> nat ?h"
      using h(1) by linarith
    then show "buffer s' (nat ((?t + int j) mod ?N)) = buffer s (nat ((?t + int j) mod ?N))"
      by (simp add: buffer')
  qed
  ultimately show ?thesis
    by (simp add: live_def)
qed

lemma live_pop:
  assumes ok: "page_ok PAGE_SHIFT" and cur: "cursors_ok PAGE_SHIFT s"
    and some: "1 \<le> occupancy PAGE_SHIFT s"
    and tail': "buffer_tail s' = next_index PAGE_SHIFT (buffer_tail s)"
    and head': "buffer_head s' = buffer_head s"
    and buffer': "buffer s' = buffer s"
  shows "live PAGE_SHIFT s = buffer s (nat (sint (buffer_tail s))) # live PAGE_SHIFT s'"
proof -
  let ?N = "CAPACITY PAGE_SHIFT" and ?h = "sint (buffer_head s)" and ?t = "sint (buffer_tail s)"
  let ?n = "nat (occupancy PAGE_SHIFT s')"
  have t: "0 \<le> ?t" "?t < ?N"
    using cur by (simp_all add: cursors_ok_def)
  have "nat (occupancy PAGE_SHIFT s) = Suc ?n"
    using occupancy_pop [OF ok some tail' head'] some by simp
  then have "live PAGE_SHIFT s
      = buffer s (nat (?t mod ?N)) # map (\<lambda>j. buffer s (nat ((?t + int (Suc j)) mod ?N))) [0 ..< ?n]"
    by (simp add: live_def upt_conv_Cons map_Suc_upt [symmetric] del: upt_Suc)
  moreover have "?t mod ?N = ?t"
    using t by simp
  moreover have "((?t + 1) mod ?N + int j) mod ?N = (?t + int (Suc j)) mod ?N" for j
    by (simp add: mod_add_left_eq add.assoc)
  ultimately show ?thesis
    by (simp add: live_def tail' buffer' sint_next_index [OF ok])
qed

section \<open>Pulses\<close>

lemma live_log: "live PAGE_SHIFT (printk m s) = live PAGE_SHIFT s"
  by (simp add: live_def occupancy_def printk_def)

lemma geiger_isr_live:
  assumes ok: "page_ok PAGE_SHIFT" and cur: "cursors_ok PAGE_SHIFT s"
  shows "\<exists>s'. geiger_isr PAGE_SHIFT (geiger_irq s) t s = Inr s'
           \<and> cursors_ok PAGE_SHIFT s' \<and> geiger_irq s' = geiger_irq s
           \<and> live PAGE_SHIFT s' = live PAGE_SHIFT s @ take (nat (capacity PAGE_SHIFT - occupancy PAGE_SHIFT s)) [t]
           \<and> occupancy PAGE_SHIFT s' = min (capacity PAGE_SHIFT) (occupancy PAGE_SHIFT s + 1)"
proof (cases "occupancy PAGE_SHIFT s < capacity PAGE_SHIFT")
  case True
  let ?s' = "(printk (Info_acquired_pulse (tv_sec t) (tv_nsec t)) s)
                \<lparr>buffer := (buffer s)(nat (sint (buffer_head s)) := t),
                 buffer_head := next_index PAGE_SHIFT (buffer_head s)\<rparr>"
  have s': "buffer_head ?s' = next_index PAGE_SHIFT (buffer_head s)" "buffer_tail ?s' = buffer_tail s"
    "buffer ?s' = (buffer s)(nat (sint (buffer_head s)) := t)"
    by (simp_all add: printk_def)
  have "geiger_isr PAGE_SHIFT (geiger_irq s) t s = Inr ?s'"
    by (rule geiger_isr_space [OF ok cur True])
  moreover have "cursors_ok PAGE_SHIFT ?s'"
    using cur cursor_next [OF ok, of "buffer_head s"] by (simp add: cursors_ok_def printk_def)
  moreover have "live PAGE_SHIFT ?s' = live PAGE_SHIFT s @ [t]"
    by (rule live_push [OF ok cur True s'])
  moreover have "occupancy PAGE_SHIFT ?s' = occupancy PAGE_SHIFT s + 1"
    by (rule occupancy_push [OF ok True s'(1,2)])
  moreover have "geiger_irq ?s' = geiger_irq s"
    by (simp add: printk_def)
  moreover have "take (nat (capacity PAGE_SHIFT - occupancy PAGE_SHIFT s)) [t] = [t]"
    using True by (cases "nat (capacity PAGE_SHIFT - occupancy PAGE_SHIFT s)") simp_all
  ultimately show ?thesis
    using True by (simp add: min_def)
next
  case False
  then have full: "occupancy PAGE_SHIFT s = capacity PAGE_SHIFT"
    using occupancy_bounds [OF ok, of s] by simp
  let ?s' = "printk (Info_acquired_pulse (tv_sec t) (tv_nsec t)) s"
  have "geiger_isr PAGE_SHIFT (geiger_irq s) t s = Inr ?s'"
    by (rule geiger_isr_full [OF ok full])
  moreover have "cursors_ok PAGE_SHIFT ?s'" "geiger_irq ?s' = geiger_irq s"
    "occupancy PAGE_SHIFT ?s' = occupancy PAGE_SHIFT s"
    using cur by (simp_all add: cursors_ok_def occupancy_def printk_def)
  ultimately show ?thesis
    using full by (simp add: live_log)
qed

lemma pulses_live:
  assumes ok: "page_ok PAGE_SHIFT"
  shows "cursors_ok PAGE_SHIFT s \<Longrightarrow>
     \<exists>s'. pulses PAGE_SHIFT ts s = Inr s' \<and> cursors_ok PAGE_SHIFT s'
       \<and> live PAGE_SHIFT s' = live PAGE_SHIFT s @ take (nat (capacity PAGE_SHIFT - occupancy PAGE_SHIFT s)) ts
       \<and> occupancy PAGE_SHIFT s' = min (capacity PAGE_SHIFT) (occupancy PAGE_SHIFT s + int (length ts))"
proof (induction ts arbitrary: s)
  case Nil
  then show ?case
    using occupancy_bounds [OF ok, of s] by simp
next
  case (Cons t ts)
  let ?c = "capacity PAGE_SHIFT"
  obtain s1 where isr: "geiger_isr PAGE_SHIFT (geiger_irq s) t s = Inr s1"
    and cur1: "cursors_ok PAGE_SHIFT s1"
    and live1: "live PAGE_SHIFT s1 = live PAGE_SHIFT s @ take (nat (?c - occupancy PAGE_SHIFT s)) [t]"
    and occ1: "occupancy PAGE_SHIFT s1 = min ?c (occupancy PAGE_SHIFT s + 1)"
    using geiger_isr_live [OF ok Cons.prems, of t] by blast
  obtain s' where run: "pulses PAGE_SHIFT ts s1 = Inr s'"
    and cur': "cursors_ok PAGE_SHIFT s'"
    and live': "live PAGE_SHIFT s' = live PAGE_SHIFT s1 @ take (nat (?c - occupancy PAGE_SHIFT s1)) ts"
    and occ': "occupancy PAGE_SHIFT s' = min ?c (occupancy PAGE_SHIFT s1 + int (length ts))"
    using Cons.IH [OF cur1] by blast
  have bounds: "0 \<le> occupancy PAGE_SHIFT s" "occupancy PAGE_SHIFT s \<le> ?c"
    using occupancy_bounds [OF ok, of s] by simp_all
  have "pulses PAGE_SHIFT (t # ts) s = Inr s'"
    using isr run by simp
  moreover have "live PAGE_SHIFT s' = live PAGE_SHIFT s @ take (nat (?c - occupancy PAGE_SHIFT s)) (t # ts)"
  proof (cases "occupancy PAGE_SHIFT s < ?c")
    case True
    then have "nat (?c - occupancy PAGE_SHIFT s) = Suc (nat (?c - (occupancy PAGE_SHIFT s + 1)))"
      by simp
    then show ?thesis
      using True live' live1 occ1 by (simp add: min_def)
  next
    case False
    with bounds have "occupancy PAGE_SHIFT s = ?c"
      by simp
    then show ?thesis
      using live' live1 occ1 by simp
  qed
  moreover have "occupancy PAGE_SHIFT s' = min ?c (occupancy PAGE_SHIFT s + int (length (t # ts)))"
    using occ' occ1 bounds by (simp add: min_def)
  ultimately show ?case
    using cur' by blast
qed

section \<open>The new read\<close>

text \<open>
  What \<^verbatim>\<open>geiger_read\<close> does on a state with both cursors in the page, with \<open>k\<close> live
  samples and room for \<open>m\<close>: it returns the size of \<open>min k m\<close> samples, fills that many
  places of the caller with the oldest live sample, and takes one sample, the oldest, off
  the buffer if \<open>min k m\<close> is not 0.
\<close>

lemma geiger_read_advances_once:
  fixes max' :: size_t
  assumes ok: "page_ok PAGE_SHIFT" and cur: "cursors_ok PAGE_SHIFT s"
  defines "n \<equiv> min (uint max' div 16) (occupancy PAGE_SHIFT s)"
  shows "\<exists>ret data' s'. geiger_read PAGE_SHIFT data max' wait s = Inr (ret, data', s')
     \<and> sint ret = n * 16
     \<and> (\<forall>q. data' q = (if int q < n then hd (live PAGE_SHIFT s) else data q))
     \<and> live PAGE_SHIFT s' = (if 1 \<le> n then tl (live PAGE_SHIFT s) else live PAGE_SHIFT s)
     \<and> occupancy PAGE_SHIFT s' = (if 1 \<le> n then occupancy PAGE_SHIFT s - 1 else occupancy PAGE_SHIFT s)"
proof -
  let ?cnt = "CIRC_CNT (buffer_head s) (buffer_tail s) (BUFFER_SIZE PAGE_SHIFT)"
  define pg where "pg = min (max' div sizeof_timespec) ?cnt"
  obtain data' s' where
    run: "geiger_read PAGE_SHIFT data max' wait s = Inr (ucast (pg * sizeof_timespec), data', s')"
    and data': "\<forall>q. data' q = (if q < unat pg then buffer s (nat (sint (buffer_tail s))) else data q)"
    and buffer': "buffer s' = buffer s" and head': "buffer_head s' = buffer_head s"
    and tail': "buffer_tail s' = (if 0 < pg then next_index PAGE_SHIFT (buffer_tail s) else buffer_tail s)"
    using geiger_read_result [OF ok cur pg_def] by blast
  have cnt: "uint ?cnt = occupancy PAGE_SHIFT s"
    by (rule CIRC_CNT_occupancy [OF ok])
  have "uint pg = min (uint (max' div sizeof_timespec)) (uint ?cnt)"
    by (simp add: pg_def min_def word_le_def)
  then have pg: "uint pg = n"
    by (simp add: n_def cnt uint_div sizeof_timespec_def)
  have "occupancy PAGE_SHIFT s < CAPACITY PAGE_SHIFT"
    using occupancy_bounds [OF ok, of s] by (simp add: capacity_def)
  then have "uint pg < 2 ^ 27"
    using CAPACITY_le [OF ok] pg by (simp add: n_def)
  then have bytes: "uint (pg * sizeof_timespec) = uint pg * 16" and "uint pg * 16 < 2 ^ 31"
    by (simp_all add: uint_times_sizeof)
  then have ret: "sint (ucast (pg * sizeof_timespec) :: int_t) = n * 16"
    by (simp add: sint_narrow_small pg)
  have less: "q < unat pg \<longleftrightarrow> int q < n" for q
    unfolding pg [symmetric] unat_eq_nat_uint using uint_nonnegative [of pg] by linarith
  have pos: "0 < pg \<longleftrightarrow> 1 \<le> n"
    unfolding pg [symmetric] word_less_def by simp presburger
  have "live PAGE_SHIFT s' = (if 1 \<le> n then tl (live PAGE_SHIFT s) else live PAGE_SHIFT s)
     \<and> occupancy PAGE_SHIFT s' = (if 1 \<le> n then occupancy PAGE_SHIFT s - 1 else occupancy PAGE_SHIFT s)
     \<and> (1 \<le> n \<longrightarrow> buffer s (nat (sint (buffer_tail s))) = hd (live PAGE_SHIFT s))"
  proof (cases "1 \<le> n")
    case True
    then have some: "1 \<le> occupancy PAGE_SHIFT s"
      by (simp add: n_def)
    have t: "buffer_tail s' = next_index PAGE_SHIFT (buffer_tail s)"
      using tail' pos True by simp
    show ?thesis
      using live_pop [OF ok cur some t head' buffer'] occupancy_pop [OF ok some t head'] True
      by simp
  next
    case False
    then have "buffer_tail s' = buffer_tail s"
      using tail' pos by simp
    then show ?thesis
      using False head' buffer' by (simp add: live_def occupancy_def)
  qed
  moreover have "\<forall>q. data' q = (if int q < n then buffer s (nat (sint (buffer_tail s))) else data q)"
    using data' less by simp
  ultimately show ?thesis
    using run ret by (auto simp add: less)
qed

section \<open>Every entry keeps the cursors in the page\<close>

lemma step_cursors_ok:
  assumes ok: "page_ok PAGE_SHIFT" and cur: "cursors_ok PAGE_SHIFT s"
  shows "\<exists>s'. step PAGE_SHIFT e s = Inr s' \<and> cursors_ok PAGE_SHIFT s'"
proof (cases e)
  case (Isr irq t)
  show ?thesis
  proof (cases "irq = geiger_irq s")
    case True
    then show ?thesis
      using geiger_isr_live [OF ok cur, of t] Isr by auto
  next
    case False
    then show ?thesis
      using cur Isr by (simp add: geiger_isr_other)
  qed
next
  case (Data_present wait)
  then show ?thesis
    using cur by (simp add: geiger_data_present_def Let_def printk_def cursors_ok_def)
next
  case (Data_read data)
  show ?thesis
  proof (cases "1 \<le> occupancy PAGE_SHIFT s")
    case True
    then show ?thesis
      using geiger_data_read_pop [OF ok cur True, of data] cur cursor_next [OF ok, of "buffer_tail s"]
        Data_read
      by (simp add: cursors_ok_def printk_def)
  next
    case False
    then have "occupancy PAGE_SHIFT s = 0"
      using occupancy_bounds [OF ok, of s] by simp
    then show ?thesis
      using geiger_data_read_empty [OF ok, of s data] cur Data_read
      by (simp add: cursors_ok_def printk_def)
  qed
next
  case (Read data max' wait)
  obtain ret data' s' where
    run: "geiger_read PAGE_SHIFT data max' wait s = Inr (ret, data', s')"
    and head: "buffer_head s' = buffer_head s"
    and tail: "buffer_tail s' = next_index PAGE_SHIFT (buffer_tail s) \<or> buffer_tail s' = buffer_tail s"
    using geiger_read_result [OF ok cur refl, where max' = max' and data = data and wait = wait]
    by (metis (full_types))
  have "cursors_ok PAGE_SHIFT s'"
    using cur head tail cursor_next [OF ok, of "buffer_tail s"] by (auto simp add: cursors_ok_def)
  then show ?thesis
    using run Read by simp
qed

lemma run_cursors_ok:
  assumes ok: "page_ok PAGE_SHIFT"
  shows "cursors_ok PAGE_SHIFT s \<Longrightarrow> \<exists>s'. run PAGE_SHIFT es s = Inr s' \<and> cursors_ok PAGE_SHIFT s'"
proof (induction es arbitrary: s)
  case Nil
  then show ?case by simp
next
  case (Cons e es)
  obtain s1 where "step PAGE_SHIFT e s = Inr s1" and "cursors_ok PAGE_SHIFT s1"
    using step_cursors_ok [OF ok Cons.prems] by blast
  then show ?case
    using Cons.IH [of s1] by simp
qed

section \<open>Failures of the start-up\<close>

text \<open>
  Whatever call fails after the page was handed out, the module holds the page, and
  nothing else, when \<^verbatim>\<open>krad_init\<close> returns the failure: the labels free the interrupt
  line and the GPIO line, and no path calls \<^verbatim>\<open>free_page\<close>.
\<close>

lemma krad_init_failure_holds_page:
  assumes "get_free_page k \<noteq> 0" and "fst (krad_init PAGE_SHIFT k s) \<noteq> 0"
  shows "snd (snd (krad_init PAGE_SHIFT k s)) = {Page}"
  using assms
  by (auto simp add: krad_init_def Let_def fail1_def fail2_def fail3_def split: if_splits)

section \<open>The two pulses\<close>

text \<open>
  A page of 4096 bytes has 256 slots. The two pulses arrive at the started module, and
  both are live afterwards.
\<close>

lemma BUFFER_SIZE_12: "BUFFER_SIZE 12 = 256"
  by (simp add: BUFFER_SIZE_def PAGE_SIZE_def sizeof_timespec_def)

lemma page_ok_12: "page_ok 12"
  by (simp add: page_ok_def)

lemma pulses_two_pulses: "pulses 12 [pulse_a, pulse_b] (started 7) = Inr two_pulses"
  by (simp add: started_def two_pulses_def geiger_isr_def CIRC_SPACE_def CIRC_CNT_def
      BUFFER_SIZE_12 slot_def printk_def next_index_def pulse_a_def pulse_b_def)

lemma cursors_ok_two_pulses: "cursors_ok 12 two_pulses"
  by (simp add: cursors_ok_def two_pulses_def CAPACITY_def BUFFER_SIZE_12)

lemma occupancy_two_pulses: "occupancy 12 two_pulses = 2"
  by (simp add: occupancy_def two_pulses_def CAPACITY_def BUFFER_SIZE_12)

lemma live_two_pulses: "live 12 two_pulses = [pulse_a, pulse_b]"
  by (simp add: live_def occupancy_two_pulses numeral_2_eq_2)
    (simp add: two_pulses_def CAPACITY_def BUFFER_SIZE_12)

text \<open>
  The loop of \<^verbatim>\<open>geiger_read\<close> copies \<^verbatim>\<open>buffer[tail]\<close> and stores \<open>tail + 1\<close> in
  each round, and \<open>tail\<close> is the same in all rounds. With the two pulses live and room
  for two, the caller gets the first pulse twice, and the cursor moves by one.
\<close>

lemma geiger_read_two_pulses:
  "geiger_read 12 no_data 32 False two_pulses
     = Inr (32, no_data(0 := pulse_a, 1 := pulse_a),
            two_pulses\<lparr>buffer_tail := 1,
              klog := klog two_pulses @
                [Info_read_called, Info_dispensed_pulse 1478100000 100,
                 Info_dispensed_pulse 1478100000 100]\<rparr>)"
  by (simp add: geiger_read_def CIRC_CNT_def BUFFER_SIZE_12 sizeof_timespec_def printk_def
      read_loop.simps slot_def next_index_def two_pulses_def pulse_a_def)

section \<open>The claims of the specification\<close>

subsection \<open>The new read and the order of the samples\<close>

text \<open>
  C1 fails on the code. The two pulses are live, oldest first; a read with room for two
  dispenses two samples; the caller's memory then holds the first pulse in both places,
  and the second pulse in none.
\<close>

theorem geiger_read_repeats_oldest:
  "pulses 12 [pulse_a, pulse_b] (started 7) = Inr two_pulses
     \<and> live 12 two_pulses = [pulse_a, pulse_b]
     \<and> pulse_a \<noteq> pulse_b
     \<and> (\<exists>s'. geiger_read 12 no_data 32 False two_pulses
                 = Inr (32, no_data(0 := pulse_a, 1 := pulse_a), s'))"
proof (intro conjI exI)
  show "pulse_a \<noteq> pulse_b"
    by (simp add: pulse_a_def pulse_b_def)
qed (rule pulses_two_pulses live_two_pulses geiger_read_two_pulses)+

text \<open>
  C2 fails on the code. With occupancy 2 and room for two samples the call returns 32
  bytes, the size of two samples, and the occupancy after it is 1: it went down by one,
  not by two.
\<close>

theorem geiger_read_pops_one:
  "occupancy 12 two_pulses = 2
     \<and> (\<exists>data' s'. geiger_read 12 no_data 32 False two_pulses = Inr (32, data', s')
           \<and> occupancy 12 s' = 1 \<and> live 12 s' = [pulse_b])"
  by (simp add: occupancy_two_pulses geiger_read_two_pulses)
    (simp add: occupancy_def live_def two_pulses_def CAPACITY_def BUFFER_SIZE_12)

subsection \<open>The full buffer\<close>

text \<open>
  C3. On a state with \<open>CAPACITY - 1\<close> live samples the interrupt routine, whatever the
  interrupt number, writes no slot and moves no cursor; only the kernel log grows.
  Consequently, when \<open>capacity + 1\<close> pulses arrive at an empty buffer and nothing is read
  in between, the live samples afterwards are the first \<open>capacity\<close> pulses in their
  order: the newest is dropped.
\<close>

theorem geiger_isr_drops_newest:
  assumes "page_ok PAGE_SHIFT" and "cursors_ok PAGE_SHIFT s"
  shows "(occupancy PAGE_SHIFT s = capacity PAGE_SHIFT \<longrightarrow>
            (\<exists>s'. geiger_isr PAGE_SHIFT irq t s = Inr s'
               \<and> buffer s' = buffer s \<and> buffer_head s' = buffer_head s
               \<and> buffer_tail s' = buffer_tail s \<and> live PAGE_SHIFT s' = live PAGE_SHIFT s))
      \<and> (occupancy PAGE_SHIFT s = 0 \<and> int (length ts) = capacity PAGE_SHIFT + 1 \<longrightarrow>
            (\<exists>s'. pulses PAGE_SHIFT ts s = Inr s'
               \<and> live PAGE_SHIFT s' = butlast ts
               \<and> occupancy PAGE_SHIFT s' = capacity PAGE_SHIFT))"
proof (intro conjI impI)
  assume full: "occupancy PAGE_SHIFT s = capacity PAGE_SHIFT"
  show "\<exists>s'. geiger_isr PAGE_SHIFT irq t s = Inr s'
               \<and> buffer s' = buffer s \<and> buffer_head s' = buffer_head s
               \<and> buffer_tail s' = buffer_tail s \<and> live PAGE_SHIFT s' = live PAGE_SHIFT s"
  proof (cases "irq = geiger_irq s")
    case True
    then show ?thesis
      using geiger_isr_full [OF assms(1) full, of t] by (simp add: live_log) (simp add: printk_def)
  next
    case False
    then show ?thesis
      by (simp add: geiger_isr_other)
  qed
next
  assume "occupancy PAGE_SHIFT s = 0 \<and> int (length ts) = capacity PAGE_SHIFT + 1"
  then have empty: "occupancy PAGE_SHIFT s = 0" and len: "int (length ts) = capacity PAGE_SHIFT + 1"
    by simp_all
  have "live PAGE_SHIFT s = []"
    by (simp add: live_def empty)
  moreover have "nat (capacity PAGE_SHIFT) = length ts - 1"
    using len by linarith
  then have "take (nat (capacity PAGE_SHIFT)) ts = butlast ts"
    by (simp add: butlast_conv_take)
  moreover have "min (capacity PAGE_SHIFT) (int (length ts)) = capacity PAGE_SHIFT"
    using len by simp
  ultimately show "\<exists>s'. pulses PAGE_SHIFT ts s = Inr s'
               \<and> live PAGE_SHIFT s' = butlast ts
               \<and> occupancy PAGE_SHIFT s' = capacity PAGE_SHIFT"
    using pulses_live [OF assms, of ts] empty by auto
qed

text \<open>
  On a page of 256 slots: with the head at 255 and the tail at 0 a pulse changes no cursor;
  and of 256 pulses that arrive at the started module the first 255 are live afterwards.
\<close>

theorem geiger_isr_drops_newest_witness:
  "page_ok 12 \<and> cursors_ok 12 (started 7\<lparr>buffer_head := 255\<rparr>)
     \<and> occupancy 12 (started 7\<lparr>buffer_head := 255\<rparr>) = capacity 12
     \<and> (\<exists>s'. geiger_isr 12 7 pulse_b (started 7\<lparr>buffer_head := 255\<rparr>) = Inr s'
           \<and> buffer_head s' = 255 \<and> buffer_tail s' = 0)
     \<and> cursors_ok 12 (started 7) \<and> occupancy 12 (started 7) = 0
     \<and> int (length (replicate 255 pulse_a @ [pulse_b])) = capacity 12 + 1
     \<and> (\<exists>s'. pulses 12 (replicate 255 pulse_a @ [pulse_b]) (started 7) = Inr s'
           \<and> live 12 s' = replicate 255 pulse_a \<and> occupancy 12 s' = 255)"
proof -
  have a: "cursors_ok 12 (started 7\<lparr>buffer_head := 255\<rparr>)"
    and b: "occupancy 12 (started 7\<lparr>buffer_head := 255\<rparr>) = capacity 12"
    and c: "cursors_ok 12 (started 7)" and d: "occupancy 12 (started 7) = 0"
    and e: "capacity 12 = 255"
    by (simp_all add: cursors_ok_def occupancy_def capacity_def started_def CAPACITY_def BUFFER_SIZE_12)
  have f: "buffer_head (started 7\<lparr>buffer_head := 255\<rparr>) = 255"
    "buffer_tail (started 7\<lparr>buffer_head := 255\<rparr>) = 0"
    by (simp_all add: started_def)
  show ?thesis
    using geiger_isr_drops_newest [OF page_ok_12 a, of 7 pulse_b "[]"]
      geiger_isr_drops_newest [OF page_ok_12 c, of 7 pulse_b "replicate 255 pulse_a @ [pulse_b]"]
    by (simp add: page_ok_12 a b c d e f) blast
qed

subsection \<open>The cursors in every run\<close>

text \<open>
  C4. Start from any state with both cursors 0 and let interrupts and hwrng calls follow
  one another in any order and with any arguments. After each entry of the sequence the
  run has met no access outside the page, both cursors are slot numbers,
  \<open>0 \<le> head < CAPACITY\<close> and \<open>0 \<le> tail < CAPACITY\<close>, and the occupancy, as
  \<open>(head - tail) mod CAPACITY\<close> and as \<^verbatim>\<open>CIRC_CNT\<close> computes it, is at most
  \<open>CAPACITY - 1\<close>.
\<close>

theorem run_keeps_cursors_in_page:
  assumes "page_ok PAGE_SHIFT" and "buffer_head s = 0" and "buffer_tail s = 0"
  shows "\<exists>s'. run PAGE_SHIFT (take n es) s = Inr s'
     \<and> 0 \<le> sint (buffer_head s') \<and> sint (buffer_head s') < CAPACITY PAGE_SHIFT
     \<and> 0 \<le> sint (buffer_tail s') \<and> sint (buffer_tail s') < CAPACITY PAGE_SHIFT
     \<and> 0 \<le> occupancy PAGE_SHIFT s' \<and> occupancy PAGE_SHIFT s' \<le> CAPACITY PAGE_SHIFT - 1
     \<and> uint (CIRC_CNT (buffer_head s') (buffer_tail s') (BUFFER_SIZE PAGE_SHIFT)) = occupancy PAGE_SHIFT s'"
proof -
  have "cursors_ok PAGE_SHIFT s"
    using assms CAPACITY_pos [OF assms(1)] by (simp add: cursors_ok_def)
  then obtain s' where "run PAGE_SHIFT (take n es) s = Inr s'" and "cursors_ok PAGE_SHIFT s'"
    using run_cursors_ok [OF assms(1)] by blast
  then show ?thesis
    using occupancy_bounds [OF assms(1), of s'] CIRC_CNT_occupancy [OF assms(1), of s']
    by (simp add: cursors_ok_def capacity_def)
qed

text \<open>
  The started module on a page of 256 slots: two pulses, then a new read; the old read
  that follows is cut off by \<open>take 3\<close>.
\<close>

theorem run_keeps_cursors_in_page_witness:
  "page_ok 12 \<and> buffer_head (started 7) = 0 \<and> buffer_tail (started 7) = 0
     \<and> (\<exists>s'. run 12 (take 3 [Isr 7 pulse_a, Isr 7 pulse_b, Read no_data 32 False, Data_read 0])
                  (started 7) = Inr s'
           \<and> 0 \<le> sint (buffer_head s') \<and> sint (buffer_head s') < 256
           \<and> 0 \<le> sint (buffer_tail s') \<and> sint (buffer_tail s') < 256
           \<and> occupancy 12 s' \<le> 255)"
proof -
  have a: "buffer_head (started 7) = 0" "buffer_tail (started 7) = 0"
    by (simp_all add: started_def)
  have b: "CAPACITY 12 = 256"
    by (simp add: CAPACITY_def BUFFER_SIZE_12)
  let ?es = "[Isr 7 pulse_a, Isr 7 pulse_b, Read no_data 32 False, Data_read 0]"
  obtain s' where run: "run 12 (take 3 ?es) (started 7) = Inr s'"
    and head: "0 \<le> sint (buffer_head s')" "sint (buffer_head s') < CAPACITY 12"
    and tail: "0 \<le> sint (buffer_tail s')" "sint (buffer_tail s') < CAPACITY 12"
    and occ: "occupancy 12 s' \<le> CAPACITY 12 - 1"
    using run_keeps_cursors_in_page [OF page_ok_12 a, of 3 ?es] by blast
  have "sint (buffer_head s') < 256" "sint (buffer_tail s') < 256" "occupancy 12 s' \<le> 255"
    using head(2) tail(2) occ by (simp_all add: b)
  with run head(1) tail(1) show ?thesis
    using page_ok_12 a by blast
qed

subsection \<open>Requests smaller than a sample\<close>

text \<open>
  C5. A call of \<^verbatim>\<open>geiger_read\<close> with \<open>max\<close> smaller than
  \<^verbatim>\<open>sizeof(struct timespec)\<close> returns 0 whatever the state is, leaves the caller's
  memory as it was, changes neither the page nor a cursor (so the occupancy stays), and
  writes the line "called with max bytes smaller than the storage type" to the kernel log.
\<close>

theorem geiger_read_too_small:
  assumes "max' < sizeof_timespec"
  shows "geiger_read PAGE_SHIFT data max' wait s
           = Inr (0, data, s\<lparr>klog := klog s @ [Info_read_called, Info_max_too_small]\<rparr>)
     \<and> occupancy PAGE_SHIFT (s\<lparr>klog := klog s @ [Info_read_called, Info_max_too_small]\<rparr>)
           = occupancy PAGE_SHIFT s"
  using assms
  by (simp add: geiger_read_def div_sizeof_small read_loop_done printk_def occupancy_def)

text \<open>With two live samples and a request for 15 bytes.\<close>

theorem geiger_read_too_small_witness:
  "(15 :: size_t) < sizeof_timespec
     \<and> geiger_read 12 no_data 15 True two_pulses
           = Inr (0, no_data, two_pulses\<lparr>klog := klog two_pulses @ [Info_read_called, Info_max_too_small]\<rparr>)
     \<and> occupancy 12 (two_pulses\<lparr>klog := klog two_pulses @ [Info_read_called, Info_max_too_small]\<rparr>) = 2"
  using geiger_read_too_small [of 15 12 no_data True two_pulses]
  by (simp add: sizeof_timespec_def occupancy_two_pulses)

subsection \<open>The bytes present\<close>

text \<open>
  C6. \<^verbatim>\<open>geiger_data_present\<close> returns the occupancy times
  \<^verbatim>\<open>sizeof(struct timespec)\<close>; the state it leaves differs from the one it found in
  the kernel log only, so neither cursor moved; and the result is the same for every
  value of \<open>wait\<close>.
\<close>

theorem geiger_data_present_bytes:
  assumes "page_ok PAGE_SHIFT"
  shows "sint (fst (geiger_data_present PAGE_SHIFT wait s)) = occupancy PAGE_SHIFT s * uint sizeof_timespec
     \<and> snd (geiger_data_present PAGE_SHIFT wait s)
          = s\<lparr>klog := klog s @ [Info_data_present (fst (geiger_data_present PAGE_SHIFT wait s))]\<rparr>
     \<and> geiger_data_present PAGE_SHIFT wait' s = geiger_data_present PAGE_SHIFT wait s"
proof -
  let ?cnt = "CIRC_CNT (buffer_head s) (buffer_tail s) (BUFFER_SIZE PAGE_SHIFT)"
  have cnt: "uint ?cnt = occupancy PAGE_SHIFT s"
    by (rule CIRC_CNT_occupancy [OF assms])
  have "occupancy PAGE_SHIFT s < CAPACITY PAGE_SHIFT"
    using occupancy_bounds [OF assms, of s] by (simp add: capacity_def)
  then have le: "uint ?cnt \<le> 2 ^ 27"
    using CAPACITY_le [OF assms] cnt by linarith
  then have bytes: "uint (?cnt * sizeof_timespec) = uint ?cnt * 16"
    by (rule uint_times_sizeof)
  have "uint (?cnt * sizeof_timespec) < 2 ^ 31"
    unfolding bytes using le occupancy_bounds [OF assms, of s] CAPACITY_le [OF assms] cnt
    by (simp add: capacity_def)
  then have "sint (ucast (?cnt * sizeof_timespec) :: int_t) = uint ?cnt * 16"
    using bytes by (simp add: sint_narrow_small)
  then show ?thesis
    by (simp add: geiger_data_present_def Let_def printk_def cnt sizeof_timespec_def)
qed

text \<open>With two live samples: 32 bytes, whether the caller wants to wait or not.\<close>

theorem geiger_data_present_bytes_witness:
  "page_ok 12 \<and> sint (fst (geiger_data_present 12 1 two_pulses)) = 32
     \<and> buffer_head (snd (geiger_data_present 12 1 two_pulses)) = 2
     \<and> buffer_tail (snd (geiger_data_present 12 1 two_pulses)) = 0
     \<and> geiger_data_present 12 0 two_pulses = geiger_data_present 12 1 two_pulses"
  using geiger_data_present_bytes [of 12 1 two_pulses 0]
  by (simp add: page_ok_12 occupancy_two_pulses sizeof_timespec_def) (simp add: two_pulses_def)

subsection \<open>The old read\<close>

text \<open>
  C7. On a state with both cursors in the page, \<^verbatim>\<open>geiger_data_read\<close> with at least one
  live sample returns 4, writes the low 32 bits of \<^verbatim>\<open>tv_nsec\<close> of the oldest live sample
  to \<^verbatim>\<open>*data\<close>, and moves \<open>tail\<close> by one slot, so that the live samples after the call
  are those before it without the oldest, in the same order. With no live sample it
  returns 0 and changes neither \<^verbatim>\<open>*data\<close> nor the page nor a cursor.
\<close>

theorem geiger_data_read_pops_oldest:
  assumes "page_ok PAGE_SHIFT" and "cursors_ok PAGE_SHIFT s"
  shows "(1 \<le> occupancy PAGE_SHIFT s \<longrightarrow>
            (\<exists>s'. geiger_data_read PAGE_SHIFT data s
                     = Inr (4, ucast (tv_nsec (hd (live PAGE_SHIFT s))), s')
                \<and> live PAGE_SHIFT s' = tl (live PAGE_SHIFT s)
                \<and> occupancy PAGE_SHIFT s' = occupancy PAGE_SHIFT s - 1
                \<and> sint (buffer_tail s') = (sint (buffer_tail s) + 1) mod CAPACITY PAGE_SHIFT
                \<and> buffer_head s' = buffer_head s \<and> buffer s' = buffer s))
      \<and> (occupancy PAGE_SHIFT s = 0 \<longrightarrow>
            geiger_data_read PAGE_SHIFT data s
              = Inr (0, data, s\<lparr>klog := klog s @ [Info_data_read_called]\<rparr>))"
proof (intro conjI impI)
  assume some: "1 \<le> occupancy PAGE_SHIFT s"
  let ?s' = "(printk Info_data_read_called s)\<lparr>buffer_tail := next_index PAGE_SHIFT (buffer_tail s)\<rparr>"
  have s': "buffer_tail ?s' = next_index PAGE_SHIFT (buffer_tail s)" "buffer_head ?s' = buffer_head s"
    "buffer ?s' = buffer s"
    by (simp_all add: printk_def)
  have live: "live PAGE_SHIFT s = buffer s (nat (sint (buffer_tail s))) # live PAGE_SHIFT ?s'"
    by (rule live_pop [OF assms some s'])
  have "geiger_data_read PAGE_SHIFT data s
          = Inr (4, ucast (tv_nsec (hd (live PAGE_SHIFT s))), ?s')"
    using geiger_data_read_pop [OF assms some, of data] live by simp
  moreover have "live PAGE_SHIFT ?s' = tl (live PAGE_SHIFT s)"
    using live by simp
  moreover have "occupancy PAGE_SHIFT ?s' = occupancy PAGE_SHIFT s - 1"
    by (rule occupancy_pop [OF assms(1) some s'(1,2)])
  moreover have "sint (buffer_tail ?s') = (sint (buffer_tail s) + 1) mod CAPACITY PAGE_SHIFT"
    by (simp add: sint_next_index [OF assms(1)])
  ultimately show "\<exists>s'. geiger_data_read PAGE_SHIFT data s
                     = Inr (4, ucast (tv_nsec (hd (live PAGE_SHIFT s))), s')
                \<and> live PAGE_SHIFT s' = tl (live PAGE_SHIFT s)
                \<and> occupancy PAGE_SHIFT s' = occupancy PAGE_SHIFT s - 1
                \<and> sint (buffer_tail s') = (sint (buffer_tail s) + 1) mod CAPACITY PAGE_SHIFT
                \<and> buffer_head s' = buffer_head s \<and> buffer s' = buffer s"
    using s'(2,3) by blast
next
  assume "occupancy PAGE_SHIFT s = 0"
  then show "geiger_data_read PAGE_SHIFT data s
              = Inr (0, data, s\<lparr>klog := klog s @ [Info_data_read_called]\<rparr>)"
    using geiger_data_read_empty [OF assms(1)] by (simp add: printk_def)
qed

text \<open>
  With the two pulses live the old read gives 100, the nanoseconds of the first pulse, and
  leaves the second pulse; on the started module, which is empty, it gives nothing.
\<close>

theorem geiger_data_read_pops_oldest_witness:
  "page_ok 12 \<and> cursors_ok 12 two_pulses \<and> 1 \<le> occupancy 12 two_pulses
     \<and> (\<exists>s'. geiger_data_read 12 0 two_pulses = Inr (4, 100, s') \<and> live 12 s' = [pulse_b])
     \<and> cursors_ok 12 (started 7) \<and> occupancy 12 (started 7) = 0
     \<and> geiger_data_read 12 0 (started 7)
          = Inr (0, 0, (started 7)\<lparr>klog := klog (started 7) @ [Info_data_read_called]\<rparr>)"
proof -
  have a: "cursors_ok 12 (started 7)" and b: "occupancy 12 (started 7) = 0"
    by (simp_all add: cursors_ok_def occupancy_def started_def CAPACITY_def BUFFER_SIZE_12)
  have c: "ucast (tv_nsec pulse_a) = (100 :: u32)"
    by (simp add: pulse_a_def)
  show ?thesis
    using geiger_data_read_pops_oldest [OF page_ok_12 cursors_ok_two_pulses, of 0]
      geiger_data_read_pops_oldest [OF page_ok_12 a, of 0]
    by (simp add: page_ok_12 cursors_ok_two_pulses occupancy_two_pulses live_two_pulses a b c) blast
qed

subsection \<open>The page after a failed start-up\<close>

text \<open>
  C8 fails on the code. The kernel hands out the page and refuses the GPIO line:
  \<^verbatim>\<open>krad_init\<close> returns \<open>-16\<close> and the page is still held.
\<close>

theorem krad_init_leaks_page:
  "krad_init 12 gpio_busy loaded = (- 16, loaded\<lparr>klog := [Err_gpio (- 16)]\<rparr>, {Page})"
  by (simp add: krad_init_def gpio_busy_def fail1_def printk_def loaded_def started_def)

subsection \<open>The bounds of the caller memory\<close>

text \<open>
  C10. \<^verbatim>\<open>geiger_read\<close> writes no \<^verbatim>\<open>struct timespec\<close> of the caller's memory from
  index \<open>max div sizeof(struct timespec)\<close> on, however many samples are live, it returns,
  and the byte count it returns is at most \<open>max\<close>.
\<close>

theorem geiger_read_within_max:
  assumes "page_ok PAGE_SHIFT" and "cursors_ok PAGE_SHIFT s"
  shows "\<exists>ret data' s'. geiger_read PAGE_SHIFT data max' wait s = Inr (ret, data', s')
     \<and> (\<forall>q. unat max' div unat sizeof_timespec \<le> q \<longrightarrow> data' q = data q)
     \<and> 0 \<le> sint ret \<and> sint ret \<le> uint max'"
proof -
  let ?cnt = "CIRC_CNT (buffer_head s) (buffer_tail s) (BUFFER_SIZE PAGE_SHIFT)"
  define pg where "pg = min (max' div sizeof_timespec) ?cnt"
  obtain data' s' where
    run: "geiger_read PAGE_SHIFT data max' wait s = Inr (ucast (pg * sizeof_timespec), data', s')"
    and data': "\<forall>q. data' q = (if q < unat pg then buffer s (nat (sint (buffer_tail s))) else data q)"
    using geiger_read_result [OF assms pg_def] by blast
  have pg_le: "pg \<le> max' div sizeof_timespec" "pg \<le> ?cnt"
    by (simp_all add: pg_def)
  have wanted: "unat pg \<le> unat max' div unat sizeof_timespec"
    using pg_le(1) by (simp add: word_le_nat_alt unat_div)
  have "uint ?cnt < CAPACITY PAGE_SHIFT"
    using occupancy_bounds [OF assms(1), of s] CIRC_CNT_occupancy [OF assms(1), of s]
    by (simp add: capacity_def)
  moreover have "uint pg \<le> uint ?cnt"
    using pg_le(2) by (simp add: word_le_def)
  ultimately have lt: "uint pg < 2 ^ 27"
    using CAPACITY_le [OF assms(1)] by linarith
  then have bytes: "uint (pg * sizeof_timespec) = uint pg * 16"
    by (intro uint_times_sizeof) simp
  have "uint (pg * sizeof_timespec) < 2 ^ 31"
    unfolding bytes using lt by simp
  then have ret: "sint (ucast (pg * sizeof_timespec) :: int_t) = uint pg * 16"
    using bytes by (simp add: sint_narrow_small)
  have "uint pg \<le> uint max' div 16"
    using pg_le(1) by (simp add: word_le_def uint_div sizeof_timespec_def)
  then have "uint pg * 16 \<le> uint max'"
    by linarith
  with ret have "0 \<le> sint (ucast (pg * sizeof_timespec) :: int_t)"
    and "sint (ucast (pg * sizeof_timespec) :: int_t) \<le> uint max'"
    by simp_all
  moreover have "\<forall>q. unat max' div unat sizeof_timespec \<le> q \<longrightarrow> data' q = data q"
    using data' wanted by auto
  ultimately show ?thesis
    using run by blast
qed

text \<open>With two live samples and room for one: the second slot of the caller is not written.\<close>

theorem geiger_read_within_max_witness:
  "page_ok 12 \<and> cursors_ok 12 two_pulses
     \<and> (\<exists>ret data' s'. geiger_read 12 no_data 16 False two_pulses = Inr (ret, data', s')
          \<and> data' 1 = no_data 1 \<and> sint ret \<le> 16)"
  using geiger_read_within_max [of 12 two_pulses no_data 16 False]
  by (simp add: page_ok_12 cursors_ok_two_pulses sizeof_timespec_def) blast

end
